theory Spec2Isabelle
  imports Main "HOL-Library.Char_ord" "HOL-Library.List_Lexorder"
begin

section \<open>easyTTY: the rule store (UdevManager) and its rule codec\<close>

text \<open>
  A shallow embedding of \<^verbatim>\<open>include/common/Types.hpp\<close>, \<^verbatim>\<open>include/common/Utils.hpp\<close>,
  \<^verbatim>\<open>src/common/Utils.cpp\<close> and \<^verbatim>\<open>src/udev/UdevManager.cpp\<close>.
  A \<^verbatim>\<open>std::string\<close> is a \<open>string\<close> (a list of bytes), a struct is a record, the member
  \<^verbatim>\<open>rules_\<close> and the file system are threaded through every member function as explicit
  state, and whatever the operating system decides (the effective user, the outcome of
  opening a file, the output of a shell command) is read from an environment record.
\<close>

subsection \<open>Types.hpp\<close>

record DeviceInfo =
  devPath :: string
  sysPath :: string
  subsystem :: string
  vendor :: string
  vendorId :: string
  productId :: string
  serial :: string
  manufacturer :: string
  product :: string
  driver :: string
  devNode :: string
  busNum :: string
  devNum :: string
  interfaceNum :: string

definition isValid :: "DeviceInfo \<Rightarrow> bool" where
  "isValid d = (devPath d \<noteq> [] \<and> DeviceInfo.vendorId d \<noteq> [])"

definition getDisplayName :: "DeviceInfo \<Rightarrow> string" where
  "getDisplayName d =
     (if product d \<noteq> [] then product d @ '' ('' @ devNode d @ '')'' else devNode d)"

record UdevRule =
  name :: string
  vendorId :: string
  productId :: string
  serial :: string
  symlink :: string
  filePath :: string
  interfaceNum :: string
  priority :: int
  isActive :: bool

text \<open>\<^verbatim>\<open>UdevRule::matchesDevice\<close>, with its three early returns in the order of the source.\<close>

definition matchesDevice :: "UdevRule \<Rightarrow> DeviceInfo \<Rightarrow> bool" where
  "matchesDevice r d =
     (if vendorId r \<noteq> DeviceInfo.vendorId d \<or> productId r \<noteq> DeviceInfo.productId d then False
      else if serial r \<noteq> [] \<and> serial r \<noteq> DeviceInfo.serial d then False
      else if serial r = [] \<and> DeviceInfo.serial d \<noteq> [] then False
      else True)"

record OperationResult =
  success :: bool
  message :: string

definition Success :: "string \<Rightarrow> OperationResult" where
  "Success msg = \<lparr>success = True, message = msg\<rparr>"

definition Success_default :: OperationResult where
  "Success_default = Success ''Operation completed successfully''"

definition Failure :: "string \<Rightarrow> OperationResult" where
  "Failure msg = \<lparr>success = False, message = msg\<rparr>"

subsection \<open>Characters and the helpers of Utils.hpp\<close>

definition char_between :: "nat \<Rightarrow> char \<Rightarrow> nat \<Rightarrow> bool" where
  "char_between lo c hi = (lo \<le> of_char c \<and> of_char c \<le> hi)"

text \<open>The C locale's \<^verbatim>\<open>isspace\<close>: space, and the controls from tab to carriage return.\<close>

definition isspace :: "char \<Rightarrow> bool" where
  "isspace c = (of_char c = (32::nat) \<or> char_between 9 c 13)"

definition isdigit :: "char \<Rightarrow> bool" where
  "isdigit c = char_between 48 c 57"

text \<open>The bracket expression \<^verbatim>\<open>[a-zA-Z]\<close>.\<close>

definition is_letter :: "char \<Rightarrow> bool" where
  "is_letter c = (char_between 97 c 122 \<or> char_between 65 c 90)"

text \<open>The bracket expression \<^verbatim>\<open>[a-zA-Z0-9_-]\<close>.\<close>

definition is_name_char :: "char \<Rightarrow> bool" where
  "is_name_char c =
     (char_between 97 c 122 \<or> char_between 65 c 90 \<or> char_between 48 c 57
      \<or> c = CHR ''_'' \<or> c = CHR ''-'')"

text \<open>The bracket expression \<^verbatim>\<open>[0-9a-fA-F]\<close>.\<close>

definition is_hex :: "char \<Rightarrow> bool" where
  "is_hex c = (char_between 48 c 57 \<or> char_between 97 c 102 \<or> char_between 65 c 70)"

definition dquote :: char where
  "dquote = CHR 0x22"

text \<open>The bracket expression \<^verbatim>\<open>[^"]\<close>.\<close>

definition not_dquote :: "char \<Rightarrow> bool" where
  "not_dquote c = (c \<noteq> dquote)"

definition newline :: char where
  "newline = CHR 0x0A"

text \<open>
  \<^verbatim>\<open>utils::trim\<close>: \<^verbatim>\<open>start\<close> is the first character that is not a space, \<^verbatim>\<open>end\<close> is one past
  the last such character, and the result is empty unless \<^verbatim>\<open>start < end\<close>.
\<close>

definition trim :: "string \<Rightarrow> string" where
  "trim str = rev (dropWhile isspace (rev (dropWhile isspace str)))"

definition endsWith :: "string \<Rightarrow> string \<Rightarrow> bool" where
  "endsWith str suffix =
     (length str \<ge> length suffix \<and> drop (length str - length suffix) str = suffix)"

text \<open>\<^verbatim>\<open>s.compare(0, p.size(), p) == 0\<close> on the text that starts at a position.\<close>

fun starts_with :: "string \<Rightarrow> string \<Rightarrow> bool" where
  "starts_with [] s = True"
| "starts_with (p # ps) [] = False"
| "starts_with (p # ps) (c # cs) = (p = c \<and> starts_with ps cs)"

text \<open>\<^verbatim>\<open>str.find(sub) != std::string::npos\<close>.\<close>

fun contains :: "string \<Rightarrow> string \<Rightarrow> bool" where
  "contains sub [] = starts_with sub []"
| "contains sub (c # cs) = (starts_with sub (c # cs) \<or> contains sub cs)"

text \<open>
  \<^verbatim>\<open>std::regex_match(name, "^[a-zA-Z][a-zA-Z0-9_-]*$")\<close>: the whole name is one letter
  followed by any number of characters of the second class.
\<close>

fun regex_match_name :: "string \<Rightarrow> bool" where
  "regex_match_name [] = False"
| "regex_match_name (c # cs) = (is_letter c \<and> list_all is_name_char cs)"

definition isValidSymlinkName :: "string \<Rightarrow> bool" where
  "isValidSymlinkName nm =
     (if nm = [] \<or> length nm > 64 then False else regex_match_name nm)"

subsection \<open>The regular expressions of parseRuleFile\<close>

text \<open>
  Each of the four expressions is a literal text, one capture group \<^verbatim>\<open>(C+)\<close> over a
  character class \<open>C\<close> that excludes the double quote, and a closing double quote.
  At one position such an expression matches exactly when the literal is there, the
  longest run of \<open>C\<close> after it is not empty and the run is followed by a double quote
  (a shorter capture is followed by a character of \<open>C\<close>, never by the quote).
  \<^verbatim>\<open>std::regex_search\<close> reports the match at the leftmost position that has one.
\<close>

fun strip_literal :: "string \<Rightarrow> string \<Rightarrow> string option" where
  "strip_literal [] s = Some s"
| "strip_literal (p # ps) [] = None"
| "strip_literal (p # ps) (c # cs) = (if p = c then strip_literal ps cs else None)"

definition capture_run :: "(char \<Rightarrow> bool) \<Rightarrow> string \<Rightarrow> string option" where
  "capture_run cls s =
     (case dropWhile cls s of
        [] \<Rightarrow> None
      | c # _ \<Rightarrow> if takeWhile cls s \<noteq> [] \<and> c = dquote then Some (takeWhile cls s) else None)"

definition match_here :: "string \<Rightarrow> (char \<Rightarrow> bool) \<Rightarrow> string \<Rightarrow> string option" where
  "match_here lit cls s =
     (case strip_literal lit s of None \<Rightarrow> None | Some rest \<Rightarrow> capture_run cls rest)"

fun regex_search :: "string \<Rightarrow> (char \<Rightarrow> bool) \<Rightarrow> string \<Rightarrow> string option" where
  "regex_search lit cls [] = match_here lit cls []"
| "regex_search lit cls (c # cs) =
     (case match_here lit cls (c # cs) of
        Some m \<Rightarrow> Some m
      | None \<Rightarrow> regex_search lit cls cs)"

definition vendorRegex :: "string \<Rightarrow> string option" where
  \<open>vendorRegex = regex_search ''ATTRS{idVendor}=="'' is_hex\<close>

definition productRegex :: "string \<Rightarrow> string option" where
  \<open>productRegex = regex_search ''ATTRS{idProduct}=="'' is_hex\<close>

definition serialRegex :: "string \<Rightarrow> string option" where
  \<open>serialRegex = regex_search ''ATTRS{serial}=="'' not_dquote\<close>

definition symlinkRegex :: "string \<Rightarrow> string option" where
  \<open>symlinkRegex = regex_search ''SYMLINK+="'' not_dquote\<close>

subsection \<open>std::stoi\<close>

text \<open>
  \<^verbatim>\<open>std::stoi\<close> skips leading white space, reads an optional sign and then decimal digits;
  it throws when there is no digit or when the value does not fit an \<^verbatim>\<open>int\<close>. Both
  exceptions are the value \<open>None\<close>.
\<close>

definition digit_val :: "char \<Rightarrow> int" where
  "digit_val c = int (of_char c) - 48"

definition decimal :: "string \<Rightarrow> int" where
  "decimal ds = foldl (\<lambda>acc c. 10 * acc + digit_val c) 0 ds"

definition stoi :: "string \<Rightarrow> int option" where
  "stoi s =
     (let s1 = dropWhile isspace s;
          neg = (case s1 of [] \<Rightarrow> False | c # _ \<Rightarrow> c = CHR ''-'');
          s2 = (case s1 of [] \<Rightarrow> [] | c # r \<Rightarrow> if c = CHR ''-'' \<or> c = CHR ''+'' then r else s1);
          ds = takeWhile isdigit s2;
          v = (if neg then - decimal ds else decimal ds)
      in if ds = [] then None
         else if v < - 2147483648 \<or> 2147483647 < v then None
         else Some v)"

subsection \<open>The file system and the operating system\<close>

text \<open>
  The file system maps a path to what is there; the order of the list is the order in
  which \<^verbatim>\<open>std::filesystem::directory_iterator\<close> reports the entries. A \<open>NoAccess\<close> node
  is a regular file that cannot be opened. Paths are compared as texts, the rule
  directory is a directory whenever it exists, and status queries do not fail.
\<close>

datatype fnode = File string | NoAccess | Directory

type_synonym filesystem = "(string \<times> fnode) list"

definition fs_exists :: "filesystem \<Rightarrow> string \<Rightarrow> bool" where
  "fs_exists fs p = (map_of fs p \<noteq> None)"

fun fs_write :: "string \<Rightarrow> string \<Rightarrow> filesystem \<Rightarrow> filesystem" where
  "fs_write p c [] = [(p, File c)]"
| "fs_write p c ((q, n) # fs) = (if q = p then (p, File c) # fs else (q, n) # fs_write p c fs)"

definition fs_remove :: "string \<Rightarrow> filesystem \<Rightarrow> filesystem" where
  "fs_remove p fs = filter (\<lambda>e. fst e \<noteq> p) fs"

definition is_regular_file :: "fnode \<Rightarrow> bool" where
  "is_regular_file n = (case n of Directory \<Rightarrow> False | _ \<Rightarrow> True)"

text \<open>
  What the program cannot decide itself: \<^verbatim>\<open>geteuid() == 0\<close>, whether an \<^verbatim>\<open>std::ofstream\<close>
  opens, the message of the exception \<^verbatim>\<open>fs::remove\<close> throws (if it throws), the combined
  output of a command run through \<^verbatim>\<open>popen\<close> (\<open>None\<close> when \<^verbatim>\<open>popen\<close> fails) and its exit
  status (which \<^verbatim>\<open>pclose\<close> returns to nobody), the value \<^verbatim>\<open>system\<close> returns, and what a
  command does to the files.
\<close>

record os_env =
  isRoot :: bool
  ofstream_opens :: "filesystem \<Rightarrow> string \<Rightarrow> bool"
  remove_error :: "filesystem \<Rightarrow> string \<Rightarrow> string option"
  popen_output :: "filesystem \<Rightarrow> string \<Rightarrow> string option"
  exit_status :: "filesystem \<Rightarrow> string \<Rightarrow> int"
  system_status :: "filesystem \<Rightarrow> string \<Rightarrow> int"
  shell_effect :: "string \<Rightarrow> filesystem \<Rightarrow> filesystem"

text \<open>
  The state of the program: the files, the member \<^verbatim>\<open>rules_\<close> of the one UdevManager,
  and the commands handed to the shell so far, oldest first.
\<close>

record manager =
  files :: filesystem
  rules :: "UdevRule list"
  commands :: "string list"

text \<open>\<^verbatim>\<open>utils::executeCommand\<close> (Utils.cpp).\<close>

definition executeCommand :: "os_env \<Rightarrow> string \<Rightarrow> manager \<Rightarrow> string \<times> manager" where
  "executeCommand env cmd s =
     (case popen_output env (files s) cmd of
        None \<Rightarrow> ([], s\<lparr>commands := commands s @ [cmd]\<rparr>)
      | Some result \<Rightarrow>
          (trim result,
           s\<lparr>files := shell_effect env cmd (files s), commands := commands s @ [cmd]\<rparr>))"

text \<open>The C library's \<^verbatim>\<open>system\<close>.\<close>

definition system_call :: "os_env \<Rightarrow> string \<Rightarrow> manager \<Rightarrow> int \<times> manager" where
  "system_call env cmd s =
     (system_status env (files s) cmd,
      s\<lparr>files := shell_effect env cmd (files s), commands := commands s @ [cmd]\<rparr>)"

subsection \<open>UdevManager.cpp: the codec\<close>

definition DEFAULT_PRIORITY :: int where
  "DEFAULT_PRIORITY = 99"

definition RULES_DIR :: string where
  "RULES_DIR = ''/etc/udev/rules.d''"

definition apostrophe :: string where
  "apostrophe = [CHR 0x27]"

text \<open>
  The stream insertions of \<^verbatim>\<open>generateRuleContent\<close>, in their order; \<open>created\<close> is what
  \<^verbatim>\<open>executeCommand("date")\<close> returned.
\<close>

definition ruleHeader :: "DeviceInfo \<Rightarrow> string \<Rightarrow> string" where
  "ruleHeader device created =
     ''# EasyTTY auto-generated rule'' @ [newline]
     @ ''# Device: '' @ getDisplayName device @ [newline]
     @ ''# Vendor: '' @ manufacturer device @ '' ('' @ DeviceInfo.vendorId device @ '')'' @ [newline]
     @ ''# Product: '' @ product device @ '' ('' @ DeviceInfo.productId device @ '')'' @ [newline]
     @ (if DeviceInfo.serial device \<noteq> [] then ''# Serial: '' @ DeviceInfo.serial device @ [newline]
        else [])
     @ ''# Original: '' @ devPath device @ [newline]
     @ ''# Created: '' @ created @ [newline]
     @ [newline]"

definition ruleLine :: "DeviceInfo \<Rightarrow> string \<Rightarrow> string" where
  \<open>ruleLine device symlinkName =
     ''SUBSYSTEM=="tty", ''
     @ ''ATTRS{idVendor}=="'' @ DeviceInfo.vendorId device @ ''", ''
     @ ''ATTRS{idProduct}=="'' @ DeviceInfo.productId device @ ''"''
     @ (if DeviceInfo.serial device \<noteq> [] then '', ATTRS{serial}=="'' @ DeviceInfo.serial device @ ''"''
        else [])
     @ '', SYMLINK+="'' @ symlinkName @ ''", MODE="0666"'' @ [newline]\<close>

definition ruleContent :: "DeviceInfo \<Rightarrow> string \<Rightarrow> string \<Rightarrow> string" where
  "ruleContent device symlinkName created = ruleHeader device created @ ruleLine device symlinkName"

definition generateRuleContent ::
  "os_env \<Rightarrow> DeviceInfo \<Rightarrow> string \<Rightarrow> manager \<Rightarrow> string \<times> manager" where
  "generateRuleContent env device symlinkName s =
     (case executeCommand env ''date'' s of
        (created, s1) \<Rightarrow> (ruleContent device symlinkName created, s1))"

text \<open>\<^verbatim>\<open>std::to_string(DEFAULT_PRIORITY)\<close> is the text \<open>99\<close>.\<close>

definition generateRuleFileName :: "string \<Rightarrow> string" where
  "generateRuleFileName symlinkName = ''99'' @ ''-easytty-'' @ symlinkName @ ''.rules''"

text \<open>\<^verbatim>\<open>fs::path(filePath).filename()\<close>: what follows the last slash.\<close>

definition path_filename :: "string \<Rightarrow> string" where
  "path_filename p = rev (takeWhile (\<lambda>c. c \<noteq> CHR ''/'') (rev p))"

text \<open>The lines \<^verbatim>\<open>std::getline\<close> delivers until it fails.\<close>

function getlines :: "string \<Rightarrow> string list" where
  "getlines [] = []"
| "getlines (c # cs) =
     takeWhile (\<lambda>x. x \<noteq> newline) (c # cs)
     # (case dropWhile (\<lambda>x. x \<noteq> newline) (c # cs) of [] \<Rightarrow> [] | _ # rest \<Rightarrow> getlines rest)"
  by pat_completeness auto
termination
proof (relation "measure length")
  show "wf (measure length)" by simp
next
  fix c :: char and cs x21 x22
  assume "dropWhile (\<lambda>x. x \<noteq> newline) (c # cs) = x21 # x22"
  then have "length (x21 # x22) \<le> length (c # cs)"
    by (metis length_dropWhile_le)
  then show "(x22, c # cs) \<in> measure length" by simp
qed

text \<open>\<^verbatim>\<open>line.substr(line.find(":") + 1)\<close>, for a line that has a colon.\<close>

definition after_colon :: "string \<Rightarrow> string" where
  "after_colon line = drop 1 (dropWhile (\<lambda>c. c \<noteq> CHR '':'') line)"

text \<open>A default-constructed rule; \<open>priority\<close> and \<open>isActive\<close> are assigned before they are read.\<close>

definition new_rule :: UdevRule where
  "new_rule = \<lparr>name = [], vendorId = [], productId = [], serial = [], symlink = [],
     filePath = [], interfaceNum = [], priority = 0, isActive = False\<rparr>"

text \<open>The body of the \<^verbatim>\<open>while (std::getline(file, line))\<close> loop.\<close>

definition scan_line :: "UdevRule \<Rightarrow> string \<Rightarrow> UdevRule" where
  "scan_line rule line =
     (let rule1 = (if contains ''# Device:'' line then rule\<lparr>name := trim (after_colon line)\<rparr>
                   else rule)
      in case line of
           [] \<Rightarrow> rule1
         | c # _ \<Rightarrow>
             if c = CHR ''#'' then rule1
             else
               let rule2 = (case vendorRegex line of Some m \<Rightarrow> rule1\<lparr>vendorId := m\<rparr> | None \<Rightarrow> rule1);
                   rule3 = (case productRegex line of Some m \<Rightarrow> rule2\<lparr>productId := m\<rparr> | None \<Rightarrow> rule2);
                   rule4 = (case serialRegex line of Some m \<Rightarrow> rule3\<lparr>serial := m\<rparr> | None \<Rightarrow> rule3)
               in (case symlinkRegex line of Some m \<Rightarrow> rule4\<lparr>symlink := m\<rparr> | None \<Rightarrow> rule4))"

text \<open>\<^verbatim>\<open>parseRuleFile\<close> once the file is open, on the text of the file.\<close>

definition parseRuleText :: "string \<Rightarrow> string \<Rightarrow> UdevRule option" where
  "parseRuleText path text =
     (let rule0 = new_rule\<lparr>filePath := path, isActive := True,
                    priority := (case stoi (take 2 (path_filename path)) of
                                   Some v \<Rightarrow> v
                                 | None \<Rightarrow> DEFAULT_PRIORITY)\<rparr>;
          rule = foldl scan_line rule0 (getlines text)
      in if vendorId rule = [] \<or> symlink rule = [] then None
         else if name rule = [] then Some (rule\<lparr>name := symlink rule\<rparr>)
         else Some rule)"

definition parseRuleFile :: "filesystem \<Rightarrow> string \<Rightarrow> UdevRule option" where
  "parseRuleFile fs path =
     (case map_of fs path of
        Some (File text) \<Rightarrow> parseRuleText path text
      | _ \<Rightarrow> None)"

subsection \<open>UdevManager.cpp: the rule store\<close>

text \<open>
  The entries of the rule directory: the paths made of the directory, a slash and one
  name.
\<close>

definition in_rules_dir :: "string \<Rightarrow> bool" where
  "in_rules_dir p =
     (case strip_literal (RULES_DIR @ ''/'') p of
        None \<Rightarrow> False
      | Some nm \<Rightarrow> nm \<noteq> [] \<and> CHR ''/'' \<notin> set nm)"

text \<open>
  One turn of the loop over the directory: \<open>None\<close> is a \<^verbatim>\<open>continue\<close> or a file that does
  not parse.
\<close>

definition load_entry :: "filesystem \<Rightarrow> string \<times> fnode \<Rightarrow> UdevRule option" where
  "load_entry fs entry =
     (if \<not> is_regular_file (snd entry) then None
      else let filename = path_filename (fst entry)
           in if \<not> contains ''easytty'' filename then None
              else if \<not> endsWith filename ''.rules'' then None
              else parseRuleFile fs (fst entry))"

text \<open>
  \<^verbatim>\<open>loadExistingRules\<close>. \<^verbatim>\<open>std::sort\<close> leaves the order of rules with equal symlinks open;
  here they keep the order of the directory. \<^verbatim>\<open>std::string\<close> compares bytes as unsigned
  numbers, as the order on \<open>string\<close> does.
\<close>

definition loadExistingRules :: "manager \<Rightarrow> manager" where
  "loadExistingRules s =
     (if \<not> fs_exists (files s) RULES_DIR then s\<lparr>rules := []\<rparr>
      else s\<lparr>rules :=
             sort_key symlink
               (List.map_filter (load_entry (files s))
                  (filter (\<lambda>entry. in_rules_dir (fst entry)) (files s)))\<rparr>)"

text \<open>The constructor, on the files it finds.\<close>

definition UdevManager :: "filesystem \<Rightarrow> manager" where
  "UdevManager fs = loadExistingRules \<lparr>files = fs, rules = [], commands = []\<rparr>"

definition refresh :: "manager \<Rightarrow> manager" where
  "refresh s = loadExistingRules s"

definition getRules :: "manager \<Rightarrow> UdevRule list" where
  "getRules s = rules s"

definition ruleExists :: "manager \<Rightarrow> DeviceInfo \<Rightarrow> bool" where
  "ruleExists s device =
     list_ex (\<lambda>rule. vendorId rule = DeviceInfo.vendorId device
                   \<and> productId rule = DeviceInfo.productId device
                   \<and> (DeviceInfo.serial device = [] \<or> serial rule = DeviceInfo.serial device))
       (rules s)"

definition symlinkExists :: "manager \<Rightarrow> string \<Rightarrow> bool" where
  "symlinkExists s symlinkName = list_ex (\<lambda>rule. symlink rule = symlinkName) (rules s)"

definition writeRuleFile ::
  "os_env \<Rightarrow> string \<Rightarrow> string \<Rightarrow> manager \<Rightarrow> OperationResult \<times> manager" where
  "writeRuleFile env path content s =
     (if isRoot env then
        (if \<not> ofstream_opens env (files s) path
         then (Failure (''Failed to create rule file: '' @ path), s)
         else (Success_default, s\<lparr>files := fs_write path content (files s)\<rparr>))
      else
        (let cmd = ''echo '' @ apostrophe @ content @ apostrophe @ '' | sudo tee '' @ path
                   @ '' > /dev/null 2>&1''
         in case system_call env cmd s of
              (ret, s1) \<Rightarrow>
                if ret \<noteq> 0 then (Failure ''Failed to create rule file (sudo required)'', s1)
                else (Success_default, s1)))"

definition removeRuleFile :: "os_env \<Rightarrow> string \<Rightarrow> manager \<Rightarrow> OperationResult \<times> manager" where
  "removeRuleFile env path s =
     (if \<not> fs_exists (files s) path then (Failure (''Rule file does not exist: '' @ path), s)
      else if isRoot env then
        (case remove_error env (files s) path of
           None \<Rightarrow> (Success ''Rule deleted successfully'', s\<lparr>files := fs_remove path (files s)\<rparr>)
         | Some what \<Rightarrow> (Failure (''Failed to delete rule: '' @ what), s))
      else
        (let cmd = ''sudo rm -f '' @ path @ '' 2>&1''
         in case executeCommand env cmd s of
              (output, s1) \<Rightarrow>
                if fs_exists (files s1) path
                then (Failure ''Failed to delete rule file (sudo required)'', s1)
                else (Success ''Rule deleted successfully'', s1)))"

definition createRule ::
  "os_env \<Rightarrow> DeviceInfo \<Rightarrow> string \<Rightarrow> manager \<Rightarrow> OperationResult \<times> manager" where
  "createRule env device symlinkName s =
     (if \<not> isValidSymlinkName symlinkName then
        (Failure ''Invalid symlink name. Use only letters, numbers, underscores, and hyphens. Must start with a letter.'', s)
      else if \<not> isValid device then (Failure ''Invalid device information'', s)
      else if symlinkExists s symlinkName then
        (Failure (''Symlink name '' @ apostrophe @ symlinkName @ apostrophe @ '' is already in use''), s)
      else
        (case find (\<lambda>rule. vendorId rule = DeviceInfo.vendorId device
                         \<and> productId rule = DeviceInfo.productId device
                         \<and> (DeviceInfo.serial device = [] \<or> serial rule = DeviceInfo.serial device))
                (rules s) of
           Some rule \<Rightarrow>
             (Failure (''A rule for this device already exists as '' @ apostrophe @ symlink rule
                       @ apostrophe), s)
         | None \<Rightarrow>
             (case generateRuleContent env device symlinkName s of
                (content, s1) \<Rightarrow>
                  (let fileName = generateRuleFileName symlinkName;
                       path = RULES_DIR @ ''/'' @ fileName
                   in case writeRuleFile env path content s1 of
                        (result, s2) \<Rightarrow>
                          if \<not> success result then (result, s2)
                          else (Success (''Rule created successfully: /dev/'' @ symlinkName),
                                loadExistingRules s2)))))"

definition deleteRuleFile :: "os_env \<Rightarrow> string \<Rightarrow> manager \<Rightarrow> OperationResult \<times> manager" where
  "deleteRuleFile env path s =
     (case removeRuleFile env path s of
        (result, s1) \<Rightarrow> if success result then (result, loadExistingRules s1) else (result, s1))"

definition deleteRule :: "os_env \<Rightarrow> string \<Rightarrow> manager \<Rightarrow> OperationResult \<times> manager" where
  "deleteRule env ruleName s =
     (case find (\<lambda>rule. symlink rule = ruleName \<or> name rule = ruleName) (rules s) of
        None \<Rightarrow> (Failure (''Rule not found: '' @ ruleName), s)
      | Some rule \<Rightarrow> deleteRuleFile env (filePath rule) s)"

subsection \<open>UdevManager.cpp: the control bridge\<close>

definition reloadRules :: "os_env \<Rightarrow> manager \<Rightarrow> OperationResult \<times> manager" where
  "reloadRules env s =
     (case executeCommand env ''sudo udevadm control --reload-rules 2>&1'' s of
        (output, s1) \<Rightarrow>
          if contains ''error'' output \<or> contains ''failed'' output
          then (Failure (''Failed to reload rules: '' @ output), s1)
          else (Success ''Rules reloaded successfully'', s1))"

definition triggerRules :: "os_env \<Rightarrow> manager \<Rightarrow> OperationResult \<times> manager" where
  "triggerRules env s =
     (case executeCommand env ''sudo udevadm trigger 2>&1'' s of
        (output, s1) \<Rightarrow>
          if contains ''error'' output \<or> contains ''failed'' output
          then (Failure (''Failed to trigger rules: '' @ output), s1)
          else (Success ''Rules triggered successfully'', s1))"

definition applyRules :: "os_env \<Rightarrow> manager \<Rightarrow> OperationResult \<times> manager" where
  "applyRules env s =
     (case reloadRules env s of
        (reloadResult, s1) \<Rightarrow>
          if \<not> success reloadResult then (reloadResult, s1)
          else (case triggerRules env s1 of
                  (triggerResult, s2) \<Rightarrow>
                    if \<not> success triggerResult then (triggerResult, s2)
                    else (Success ''Rules reloaded and applied successfully'', s2)))"

subsection \<open>Example devices, rules and environments\<close>

definition ftdi_device :: DeviceInfo where
  "ftdi_device = \<lparr>devPath = ''/dev/ttyUSB0'', sysPath = [], subsystem = ''tty'', vendor = [],
     DeviceInfo.vendorId = ''0403'', DeviceInfo.productId = ''6001'',
     DeviceInfo.serial = ''A50285BI'', manufacturer = ''FTDI'',
     product = ''USB-Serial Controller'', driver = [], devNode = ''ttyUSB0'',
     busNum = ''1'', devNum = ''4'', DeviceInfo.interfaceNum = ''00''\<rparr>"

definition ftdi_rule :: UdevRule where
  "ftdi_rule = \<lparr>name = ''USB-Serial Controller (ttyUSB0)'', vendorId = ''0403'',
     productId = ''6001'', serial = ''A50285BI'', symlink = ''RS485_1'',
     filePath = ''/etc/udev/rules.d/99-easytty-RS485_1.rules'', interfaceNum = [],
     priority = 99, isActive = True\<rparr>"

definition root_env :: os_env where
  "root_env = \<lparr>isRoot = True, ofstream_opens = (\<lambda>fs p. True), remove_error = (\<lambda>fs p. None),
     popen_output = (\<lambda>fs cmd. Some []), exit_status = (\<lambda>fs cmd. 0),
     system_status = (\<lambda>fs cmd. 0), shell_effect = (\<lambda>cmd fs. fs)\<rparr>"

definition one_rule_store :: manager where
  "one_rule_store = \<lparr>files = [(''/etc/udev/rules.d'', Directory)], rules = [ftdi_rule],
     commands = []\<rparr>"

definition spec_naming_grammar :: "string \<Rightarrow> bool" where
  "spec_naming_grammar nm =
     ((case nm of
         [] \<Rightarrow> False
       | c # cs \<Rightarrow>
           is_letter c
           \<and> list_all (\<lambda>x. is_letter x \<or> isdigit x \<or> x = CHR ''_'' \<or> x = CHR ''-'') cs)
      \<and> length nm \<le> 64)"

definition invalid_name_message :: string where
  "invalid_name_message = ''Invalid symlink name. Use only letters, numbers, underscores, and hyphens. Must start with a letter.''"

definition reload_command :: string where
  "reload_command = ''sudo udevadm control --reload-rules 2>&1''"

definition trigger_command :: string where
  "trigger_command = ''sudo udevadm trigger 2>&1''"

definition failing_env :: os_env where
  "failing_env = root_env\<lparr>popen_output := (\<lambda>fs cmd. Some ''Failed to send reload request: error''),
     exit_status := (\<lambda>fs cmd. 0)\<rparr>"

definition silent_env :: os_env where
  "silent_env = root_env\<lparr>popen_output := (\<lambda>fs cmd. Some []), exit_status := (\<lambda>fs cmd. 1)\<rparr>"

definition ftdi_device_no_serial :: DeviceInfo where
  "ftdi_device_no_serial = ftdi_device\<lparr>devPath := ''/dev/ttyUSB1'', DeviceInfo.serial := [],
     devNode := ''ttyUSB1'', devNum := ''5''\<rparr>"

definition rule_ok :: "UdevRule \<Rightarrow> bool" where
  "rule_ok r = (vendorId r \<noteq> [] \<and> symlink r \<noteq> [] \<and> name r \<noteq> [])"

definition cache_ok :: "manager \<Rightarrow> bool" where
  "cache_ok s = list_all rule_ok (rules s)"

definition gps_rule_text :: string where
  \<open>gps_rule_text = ''# GPS receiver'' @ [newline]
     @ ''SUBSYSTEM=="tty", ATTRS{idVendor}=="1546", ATTRS{idProduct}=="01a7", SYMLINK+="gps"''
     @ [newline]\<close>

definition gps_rule :: UdevRule where
  "gps_rule = \<lparr>name = ''gps'', vendorId = ''1546'', productId = ''01a7'', serial = [],
     symlink = ''gps'', filePath = ''/etc/udev/rules.d/10-easytty-gps.rules'',
     interfaceNum = [], priority = 10, isActive = True\<rparr>"

definition numeric_prefix :: "string \<Rightarrow> string" where
  "numeric_prefix fname = takeWhile isdigit fname"

definition spec_priority :: "string \<Rightarrow> int" where
  "spec_priority fname =
     (if numeric_prefix fname = [] then 99 else decimal (numeric_prefix fname))"

definition three_digit_store :: filesystem where
  "three_digit_store = [(''/etc/udev/rules.d'', Directory),
     (''/etc/udev/rules.d/100-easytty-x.rules'', File gps_rule_text)]"

definition three_digit_rule :: UdevRule where
  "three_digit_rule = gps_rule\<lparr>filePath := ''/etc/udev/rules.d/100-easytty-x.rules'',
     priority := 10\<rparr>"

definition two_digit_store :: filesystem where
  "two_digit_store = [(''/etc/udev/rules.d'', Directory),
     (''/etc/udev/rules.d/10-easytty-gps.rules'', File gps_rule_text)]"

definition bare_device :: DeviceInfo where
  "bare_device = \<lparr>devPath = ''/dev/ttyACM0'', sysPath = [], subsystem = ''tty'', vendor = [],
     DeviceInfo.vendorId = ''2341'', DeviceInfo.productId = [], DeviceInfo.serial = [],
     manufacturer = [], product = [], driver = ''cdc_acm'', devNode = ''ttyACM0'',
     busNum = ''1'', devNum = ''7'', DeviceInfo.interfaceNum = ''00''\<rparr>"

definition rule_body :: "string \<Rightarrow> string \<Rightarrow> string \<Rightarrow> string \<Rightarrow> string" where
  \<open>rule_body vid pid ser nm =
     ''SUBSYSTEM=="tty", ATTRS{idVendor}=="'' @ vid @ ''", ATTRS{idProduct}=="'' @ pid @ ''"''
     @ (if ser \<noteq> [] then '', ATTRS{serial}=="'' @ ser @ ''"'' else [])
     @ '', SYMLINK+="'' @ nm @ ''", MODE="0666"''\<close>

definition header_lines :: "DeviceInfo \<Rightarrow> string \<Rightarrow> string list" where
  "header_lines device created =
     [''# EasyTTY auto-generated rule'',
      ''# Device: '' @ getDisplayName device,
      ''# Vendor: '' @ manufacturer device @ '' ('' @ DeviceInfo.vendorId device @ '')'',
      ''# Product: '' @ product device @ '' ('' @ DeviceInfo.productId device @ '')'']
     @ (if DeviceInfo.serial device \<noteq> [] then [''# Serial: '' @ DeviceInfo.serial device] else [])
     @ [''# Original: '' @ devPath device, ''# Created: '' @ created, []]"

definition rule_identity :: "UdevRule \<Rightarrow> string \<times> string \<times> string \<times> string" where
  "rule_identity r = (vendorId r, productId r, serial r, symlink r)"

definition quoted_serial_device :: DeviceInfo where
  \<open>quoted_serial_device = ftdi_device\<lparr>DeviceInfo.serial := ''AB"CD''\<rparr>\<close>

section \<open>Properties\<close>

subsection \<open>The matching predicate\<close>

text \<open>
  Claim C1. A rule matches a device exactly when the vendor ids are equal, the product
  ids are equal, a rule that has a serial has the serial of the device, and a rule
  without a serial meets a device without one.
\<close>

theorem matchesDevice_iff:
  "matchesDevice r d \<longleftrightarrow>
     vendorId r = DeviceInfo.vendorId d \<and> productId r = DeviceInfo.productId d
     \<and> (serial r \<noteq> [] \<longrightarrow> serial r = DeviceInfo.serial d)
     \<and> (serial r = [] \<longrightarrow> DeviceInfo.serial d = [])"
  by (auto simp add: matchesDevice_def)

theorem matchesDevice_iff_witness:
  "matchesDevice ftdi_rule ftdi_device
   \<and> \<not> matchesDevice (ftdi_rule\<lparr>serial := []\<rparr>) ftdi_device
   \<and> matchesDevice (ftdi_rule\<lparr>serial := []\<rparr>) (ftdi_device\<lparr>DeviceInfo.serial := []\<rparr>)
   \<and> \<not> matchesDevice ftdi_rule (ftdi_device\<lparr>DeviceInfo.serial := []\<rparr>)"
  using matchesDevice_iff [of ftdi_rule ftdi_device]
    matchesDevice_iff [of "ftdi_rule\<lparr>serial := []\<rparr>" ftdi_device]
    matchesDevice_iff [of "ftdi_rule\<lparr>serial := []\<rparr>" "ftdi_device\<lparr>DeviceInfo.serial := []\<rparr>"]
    matchesDevice_iff [of ftdi_rule "ftdi_device\<lparr>DeviceInfo.serial := []\<rparr>"]
  by (simp add: ftdi_rule_def ftdi_device_def)

subsection \<open>Failed mutations\<close>

lemma executeCommand_rules: "executeCommand env cmd s = (out, s1) \<Longrightarrow> rules s1 = rules s"
  by (auto simp add: executeCommand_def split: option.splits)

lemma system_call_rules: "system_call env cmd s = (ret, s1) \<Longrightarrow> rules s1 = rules s"
  by (auto simp add: system_call_def)

lemma generateRuleContent_rules:
  "generateRuleContent env d n s = (content, s1) \<Longrightarrow> rules s1 = rules s"
  by (auto simp add: generateRuleContent_def split: prod.splits dest: executeCommand_rules)

lemma writeRuleFile_rules: "writeRuleFile env p c s = (res, s1) \<Longrightarrow> rules s1 = rules s"
  by (auto simp add: writeRuleFile_def Let_def split: prod.splits if_splits
      dest: system_call_rules)

lemma removeRuleFile_rules: "removeRuleFile env p s = (res, s1) \<Longrightarrow> rules s1 = rules s"
  by (auto simp add: removeRuleFile_def Let_def split: prod.splits option.splits if_splits
      dest: executeCommand_rules)

lemma removeRuleFile_missing:
  "\<not> fs_exists (files s) p \<Longrightarrow>
     removeRuleFile env p s = (Failure (''Rule file does not exist: '' @ p), s)"
  by (simp add: removeRuleFile_def)

lemma createRule_failure_rules:
  assumes "createRule env d n s = (res, s')" and "\<not> success res"
  shows "rules s' = rules s"
proof -
  obtain content s1 where g: "generateRuleContent env d n s = (content, s1)"
    by (cases "generateRuleContent env d n s")
  obtain wres s2 where w:
    "writeRuleFile env (RULES_DIR @ ''/'' @ generateRuleFileName n) content s1 = (wres, s2)"
    by (cases "writeRuleFile env (RULES_DIR @ ''/'' @ generateRuleFileName n) content s1")
  have "rules s2 = rules s"
    using generateRuleContent_rules [OF g] writeRuleFile_rules [OF w] by simp
  with assms g w show ?thesis
    by (auto simp add: createRule_def Let_def Success_def split: option.splits if_splits)
qed

lemma deleteRuleFile_failure_rules:
  assumes "deleteRuleFile env p s = (res, s')" and "\<not> success res"
  shows "rules s' = rules s"
  using assms
  by (auto simp add: deleteRuleFile_def split: prod.splits if_splits dest: removeRuleFile_rules)

lemma deleteRule_failure_rules:
  assumes "deleteRule env nm s = (res, s')" and "\<not> success res"
  shows "rules s' = rules s"
  using assms
  by (auto simp add: deleteRule_def Failure_def split: option.splits
      dest: deleteRuleFile_failure_rules)

text \<open>
  Claim C5. A mutation of the rule store that returns a failure leaves the cached rules
  as they were, and deleting a rule file that does not exist fails and changes nothing.
\<close>

theorem failed_mutation_keeps_cache:
  "(\<not> success (fst (createRule env d n s)) \<longrightarrow> rules (snd (createRule env d n s)) = rules s)
   \<and> (\<not> success (fst (deleteRule env nm s)) \<longrightarrow> rules (snd (deleteRule env nm s)) = rules s)
   \<and> (\<not> success (fst (deleteRuleFile env p s)) \<longrightarrow>
        rules (snd (deleteRuleFile env p s)) = rules s)
   \<and> (\<not> fs_exists (files s) p \<longrightarrow>
        \<not> success (fst (deleteRuleFile env p s)) \<and> snd (deleteRuleFile env p s) = s)"
proof (intro conjI impI)
  assume "\<not> success (fst (createRule env d n s))"
  then show "rules (snd (createRule env d n s)) = rules s"
    using createRule_failure_rules [of env d n s] by (cases "createRule env d n s") simp
next
  assume "\<not> success (fst (deleteRule env nm s))"
  then show "rules (snd (deleteRule env nm s)) = rules s"
    using deleteRule_failure_rules [of env nm s] by (cases "deleteRule env nm s") simp
next
  assume "\<not> success (fst (deleteRuleFile env p s))"
  then show "rules (snd (deleteRuleFile env p s)) = rules s"
    using deleteRuleFile_failure_rules [of env p s] by (cases "deleteRuleFile env p s") simp
next
  assume "\<not> fs_exists (files s) p"
  then show "\<not> success (fst (deleteRuleFile env p s))"
    by (simp add: deleteRuleFile_def removeRuleFile_missing Failure_def)
next
  assume "\<not> fs_exists (files s) p"
  then show "snd (deleteRuleFile env p s) = s"
    by (simp add: deleteRuleFile_def removeRuleFile_missing Failure_def)
qed

theorem failed_mutation_keeps_cache_witness:
  "\<not> fs_exists (files one_rule_store) ''/etc/udev/rules.d/99-easytty-gone.rules''
   \<and> \<not> success (fst (deleteRuleFile root_env ''/etc/udev/rules.d/99-easytty-gone.rules'' one_rule_store))
   \<and> rules (snd (deleteRuleFile root_env ''/etc/udev/rules.d/99-easytty-gone.rules'' one_rule_store))
       = [ftdi_rule]
   \<and> \<not> success (fst (createRule root_env ftdi_device ''RS485_1'' one_rule_store))
   \<and> rules (snd (createRule root_env ftdi_device ''RS485_1'' one_rule_store)) = [ftdi_rule]
   \<and> \<not> success (fst (deleteRule root_env ''RS485_9'' one_rule_store))
   \<and> rules (snd (deleteRule root_env ''RS485_9'' one_rule_store)) = [ftdi_rule]"
proof -
  have a: "\<not> fs_exists (files one_rule_store) ''/etc/udev/rules.d/99-easytty-gone.rules''"
    by (simp add: one_rule_store_def fs_exists_def)
  have b: "\<not> success (fst (createRule root_env ftdi_device ''RS485_1'' one_rule_store))"
    by (simp add: createRule_def isValidSymlinkName_def is_letter_def is_name_char_def
        char_between_def isValid_def ftdi_device_def symlinkExists_def one_rule_store_def
        ftdi_rule_def Failure_def)
  have c: "\<not> success (fst (deleteRule root_env ''RS485_9'' one_rule_store))"
    by (simp add: deleteRule_def one_rule_store_def ftdi_rule_def Failure_def)
  have r: "rules one_rule_store = [ftdi_rule]"
    by (simp add: one_rule_store_def)
  show ?thesis
    using a b c r
      failed_mutation_keeps_cache [of root_env ftdi_device "''RS485_1''" one_rule_store
        "''RS485_9''" "''/etc/udev/rules.d/99-easytty-gone.rules''"]
    by simp
qed

subsection \<open>Name validation\<close>

lemma name_char_classes:
  "(is_letter x \<or> isdigit x \<or> x = CHR ''_'' \<or> x = CHR ''-'') = is_name_char x"
  by (auto simp add: is_letter_def isdigit_def is_name_char_def)

lemma isValidSymlinkName_grammar: "isValidSymlinkName nm = spec_naming_grammar nm"
  by (cases nm) (auto simp add: isValidSymlinkName_def spec_naming_grammar_def name_char_classes)

text \<open>
  Claim C6. createRule answers a name outside the naming grammar (a letter first, then
  letters, digits, underscores and hyphens, at most 64 characters) with the validation
  failure and returns the state as it was: no file written, no command run, the cache
  untouched. Every name of the grammar passes the validation.
\<close>

theorem createRule_validates_name:
  "(\<not> spec_naming_grammar nm \<longrightarrow>
      createRule env device nm s = (Failure invalid_name_message, s))
   \<and> (spec_naming_grammar nm \<longrightarrow> isValidSymlinkName nm)"
  by (simp add: isValidSymlinkName_grammar createRule_def invalid_name_message_def)

theorem createRule_validates_name_witness:
  "\<not> spec_naming_grammar ''1abc'' \<and> \<not> spec_naming_grammar ''ab cd''
   \<and> \<not> spec_naming_grammar (replicate 65 (CHR ''a''))
   \<and> createRule root_env ftdi_device ''1abc'' one_rule_store
       = (Failure invalid_name_message, one_rule_store)
   \<and> createRule root_env ftdi_device ''ab cd'' one_rule_store
       = (Failure invalid_name_message, one_rule_store)
   \<and> createRule root_env ftdi_device (replicate 65 (CHR ''a'')) one_rule_store
       = (Failure invalid_name_message, one_rule_store)
   \<and> spec_naming_grammar ''RS485_1'' \<and> isValidSymlinkName ''RS485_1''"
proof -
  have a: "\<not> spec_naming_grammar ''1abc''"
    by (simp add: spec_naming_grammar_def is_letter_def char_between_def)
  have b: "\<not> spec_naming_grammar ''ab cd''"
    by (simp add: spec_naming_grammar_def is_letter_def isdigit_def char_between_def)
  have c: "\<not> spec_naming_grammar (replicate 65 (CHR ''a''))"
    by (simp add: spec_naming_grammar_def)
  have d: "spec_naming_grammar ''RS485_1''"
    by (simp add: spec_naming_grammar_def is_letter_def isdigit_def char_between_def)
  show ?thesis
    using a b c d
      createRule_validates_name [of "''1abc''" root_env ftdi_device one_rule_store]
      createRule_validates_name [of "''ab cd''" root_env ftdi_device one_rule_store]
      createRule_validates_name [of "replicate 65 (CHR ''a'')" root_env ftdi_device one_rule_store]
      createRule_validates_name [of "''RS485_1''" root_env ftdi_device one_rule_store]
    by simp
qed

subsection \<open>The control bridge\<close>

lemma executeCommand_commands:
  "commands (snd (executeCommand env cmd s)) = commands s @ [cmd]"
  by (simp add: executeCommand_def split: option.splits)

lemma executeCommand_exit_status:
  "executeCommand (env\<lparr>exit_status := e\<rparr>) cmd s = executeCommand env cmd s"
  by (simp add: executeCommand_def split: option.splits)

lemma reloadRules_success:
  "success (fst (reloadRules env s)) \<longleftrightarrow>
     \<not> (contains ''error'' (fst (executeCommand env reload_command s))
        \<or> contains ''failed'' (fst (executeCommand env reload_command s)))"
  by (cases "executeCommand env reload_command s")
    (simp add: reloadRules_def reload_command_def Success_def Failure_def)

lemma triggerRules_success:
  "success (fst (triggerRules env s)) \<longleftrightarrow>
     \<not> (contains ''error'' (fst (executeCommand env trigger_command s))
        \<or> contains ''failed'' (fst (executeCommand env trigger_command s)))"
  by (cases "executeCommand env trigger_command s")
    (simp add: triggerRules_def trigger_command_def Success_def Failure_def)

lemma reloadRules_commands:
  "commands (snd (reloadRules env s)) = commands s @ [reload_command]"
  using executeCommand_commands [of env reload_command s]
  by (cases "executeCommand env reload_command s")
    (simp add: reloadRules_def reload_command_def)

lemma triggerRules_commands:
  "commands (snd (triggerRules env s)) = commands s @ [trigger_command]"
  using executeCommand_commands [of env trigger_command s]
  by (cases "executeCommand env trigger_command s")
    (simp add: triggerRules_def trigger_command_def)

lemma applyRules_reload_failed:
  "\<not> success (fst (reloadRules env s)) \<Longrightarrow> applyRules env s = reloadRules env s"
  by (cases "reloadRules env s") (simp add: applyRules_def)

lemma applyRules_reload_ok:
  assumes "success (fst (reloadRules env s))"
  shows "commands (snd (applyRules env s)) = commands s @ [reload_command, trigger_command]"
proof -
  obtain r1 s1 where r: "reloadRules env s = (r1, s1)"
    by (cases "reloadRules env s")
  obtain r2 s2 where t: "triggerRules env s1 = (r2, s2)"
    by (cases "triggerRules env s1")
  have "commands s1 = commands s @ [reload_command]"
    using reloadRules_commands [of env s] r by simp
  moreover have "commands s2 = commands s1 @ [trigger_command]"
    using triggerRules_commands [of env s1] t by simp
  ultimately show ?thesis
    using assms r t by (simp add: applyRules_def)
qed

lemma reloadRules_exit_status: "reloadRules (env\<lparr>exit_status := e\<rparr>) s = reloadRules env s"
  by (simp add: reloadRules_def executeCommand_exit_status)

lemma triggerRules_exit_status: "triggerRules (env\<lparr>exit_status := e\<rparr>) s = triggerRules env s"
  by (simp add: triggerRules_def executeCommand_exit_status)

text \<open>
  Claim C8. applyRules runs the reload command and then the trigger command; when the
  reload fails its failure is the result and the trigger command is never run. reloadRules
  and triggerRules fail exactly when the output of their command contains \<open>error\<close> or
  \<open>failed\<close>, whatever the exit status of the command.
\<close>

theorem control_bridge:
  "(\<not> success (fst (reloadRules env s)) \<longrightarrow>
      applyRules env s = reloadRules env s
      \<and> commands (snd (applyRules env s)) = commands s @ [reload_command])
   \<and> (success (fst (reloadRules env s)) \<longrightarrow>
      commands (snd (applyRules env s)) = commands s @ [reload_command, trigger_command])
   \<and> (\<not> success (fst (reloadRules env s)) \<longleftrightarrow>
        contains ''error'' (fst (executeCommand env reload_command s))
        \<or> contains ''failed'' (fst (executeCommand env reload_command s)))
   \<and> (\<not> success (fst (triggerRules env s)) \<longleftrightarrow>
        contains ''error'' (fst (executeCommand env trigger_command s))
        \<or> contains ''failed'' (fst (executeCommand env trigger_command s)))
   \<and> reloadRules (env\<lparr>exit_status := e\<rparr>) s = reloadRules env s
   \<and> triggerRules (env\<lparr>exit_status := e\<rparr>) s = triggerRules env s"
  using applyRules_reload_failed [of env s] applyRules_reload_ok [of env s]
    reloadRules_commands [of env s] reloadRules_success [of env s] triggerRules_success [of env s]
  by (simp add: reloadRules_exit_status triggerRules_exit_status)

theorem control_bridge_witness:
  "\<not> success (fst (reloadRules failing_env one_rule_store))
   \<and> applyRules failing_env one_rule_store = reloadRules failing_env one_rule_store
   \<and> commands (snd (applyRules failing_env one_rule_store)) = [reload_command]
   \<and> success (fst (reloadRules silent_env one_rule_store))
   \<and> commands (snd (applyRules silent_env one_rule_store)) = [reload_command, trigger_command]"
proof -
  have a: "\<not> success (fst (reloadRules failing_env one_rule_store))"
    by (simp add: reloadRules_def executeCommand_def failing_env_def root_env_def trim_def
        isspace_def char_between_def Failure_def)
  have b: "success (fst (reloadRules silent_env one_rule_store))"
    by (simp add: reloadRules_def executeCommand_def silent_env_def root_env_def trim_def
        Success_def)
  have c: "commands one_rule_store = []"
    by (simp add: one_rule_store_def)
  have d: "applyRules failing_env one_rule_store = reloadRules failing_env one_rule_store
      \<and> commands (snd (applyRules failing_env one_rule_store))
          = commands one_rule_store @ [reload_command]"
    using a control_bridge [of failing_env one_rule_store "\<lambda>fs cmd. 1"] by blast
  have e: "commands (snd (applyRules silent_env one_rule_store))
      = commands one_rule_store @ [reload_command, trigger_command]"
    using b control_bridge [of silent_env one_rule_store "\<lambda>fs cmd. 0"] by blast
  show ?thesis
    using a b c d e by (metis append_Nil)
qed

subsection \<open>Duplicate bindings\<close>

text \<open>
  Claim C2. createRule should report a duplicate binding exactly when a cached rule
  matches the device under matchesDevice. Its loop tests
  \<^verbatim>\<open>device.serial.empty() || rule.serial == device.serial\<close> instead: with the rule of
  the adapter that has the serial A50285BI in the cache, the adapter of the same vendor
  and product without a serial is matched by no rule, its name is valid and free, and
  createRule still answers that a rule for this device exists.
\<close>

theorem createRule_conflict_without_match:
  "isValidSymlinkName ''RS485_2'' \<and> isValid ftdi_device_no_serial
   \<and> \<not> symlinkExists one_rule_store ''RS485_2''
   \<and> \<not> list_ex (\<lambda>rule. matchesDevice rule ftdi_device_no_serial) (rules one_rule_store)
   \<and> createRule env ftdi_device_no_serial ''RS485_2'' one_rule_store
       = (Failure (''A rule for this device already exists as '' @ apostrophe @ ''RS485_1''
                   @ apostrophe), one_rule_store)"
  by (simp add: createRule_def isValidSymlinkName_def is_letter_def is_name_char_def
      char_between_def isValid_def ftdi_device_no_serial_def ftdi_device_def symlinkExists_def
      one_rule_store_def ftdi_rule_def matchesDevice_def)


theorem createRule_conflict_without_match_witness:
  "\<not> matchesDevice ftdi_rule ftdi_device_no_serial
   \<and> \<not> success (fst (createRule root_env ftdi_device_no_serial ''RS485_2'' one_rule_store))
   \<and> snd (createRule root_env ftdi_device_no_serial ''RS485_2'' one_rule_store) = one_rule_store"
  using createRule_conflict_without_match [of root_env]
  by (simp add: one_rule_store_def Failure_def)

text \<open>
  Claim C4. ruleExists should hold exactly when a cached rule matches the device under
  matchesDevice. It applies the test of the loop of createRule, so on the same cache and
  device it answers true although no cached rule matches the device.
\<close>

theorem ruleExists_without_match:
  "ruleExists one_rule_store ftdi_device_no_serial
   \<and> \<not> list_ex (\<lambda>rule. matchesDevice rule ftdi_device_no_serial) (rules one_rule_store)"
  by (simp add: ruleExists_def ftdi_device_no_serial_def ftdi_device_def
      one_rule_store_def ftdi_rule_def matchesDevice_def)

theorem ruleExists_without_match_witness:
  "ruleExists one_rule_store ftdi_device_no_serial
   \<and> \<not> matchesDevice ftdi_rule ftdi_device_no_serial"
  using ruleExists_without_match
  by (simp add: one_rule_store_def)

text \<open>
  What the two tests share: a rule that matches under matchesDevice is found by
  ruleExists, and for a device that has a serial the two tests agree.
\<close>

lemma matchesDevice_eq:
  "matchesDevice r d \<longleftrightarrow>
     vendorId r = DeviceInfo.vendorId d \<and> productId r = DeviceInfo.productId d
     \<and> serial r = DeviceInfo.serial d"
  by (auto simp add: matchesDevice_def)

lemma matchesDevice_found_by_ruleExists:
  "list_ex (\<lambda>rule. matchesDevice rule device) (rules s) \<Longrightarrow> ruleExists s device"
  unfolding ruleExists_def list_ex_iff matchesDevice_eq by blast

lemma ruleExists_with_serial:
  "DeviceInfo.serial device \<noteq> [] \<Longrightarrow>
     ruleExists s device = list_ex (\<lambda>rule. matchesDevice rule device) (rules s)"
  unfolding ruleExists_def list_ex_iff matchesDevice_eq by blast

subsection \<open>The cache invariant\<close>

lemma parseRuleText_ok: "parseRuleText path text = Some r \<Longrightarrow> rule_ok r"
  by (auto simp add: parseRuleText_def rule_ok_def Let_def split: if_splits)

lemma parseRuleFile_ok: "parseRuleFile fs path = Some r \<Longrightarrow> rule_ok r"
  by (auto simp add: parseRuleFile_def split: option.splits fnode.splits dest: parseRuleText_ok)

lemma load_entry_ok: "load_entry fs entry = Some r \<Longrightarrow> rule_ok r"
  by (auto simp add: load_entry_def Let_def split: if_splits dest: parseRuleFile_ok)

lemma map_filter_all:
  "(\<And>x y. f x = Some y \<Longrightarrow> P y) \<Longrightarrow> list_all P (List.map_filter f xs)"
  by (induction xs) (auto split: option.splits)

lemma loadExistingRules_ok: "cache_ok (loadExistingRules s)"
  using map_filter_all [of "load_entry (files s)" rule_ok] load_entry_ok
  by (auto simp add: loadExistingRules_def cache_ok_def list_all_iff)

lemma scan_line_name:
  "\<not> contains ''# Device:'' line \<Longrightarrow> name (scan_line rule line) = name rule"
  by (simp add: scan_line_def Let_def split: list.splits option.splits)

lemma foldl_scan_line_name:
  "list_all (\<lambda>line. \<not> contains ''# Device:'' line) ls \<Longrightarrow>
     name (foldl scan_line rule ls) = name rule"
  by (induction ls arbitrary: rule) (simp_all add: scan_line_name)

lemma parseRuleText_default_name:
  assumes "parseRuleText path text = Some r"
    and "list_all (\<lambda>line. \<not> contains ''# Device:'' line) (getlines text)"
  shows "name r = symlink r"
  using assms(1) foldl_scan_line_name [OF assms(2)]
  by (auto simp add: parseRuleText_def Let_def new_rule_def split: if_splits)

lemma createRule_reload:
  "createRule env d n s = (res, s') \<Longrightarrow>
     rules s' = rules s \<or> (\<exists>s2. s' = loadExistingRules s2)"
proof (cases "success res")
  case False
  assume "createRule env d n s = (res, s')"
  then show ?thesis using False createRule_failure_rules by blast
next
  case True
  assume c: "createRule env d n s = (res, s')"
  obtain content s1 where g: "generateRuleContent env d n s = (content, s1)"
    by (cases "generateRuleContent env d n s")
  obtain wres s2 where w:
    "writeRuleFile env (RULES_DIR @ ''/'' @ generateRuleFileName n) content s1 = (wres, s2)"
    by (cases "writeRuleFile env (RULES_DIR @ ''/'' @ generateRuleFileName n) content s1")
  from c g w True have "s' = loadExistingRules s2"
    by (auto simp add: createRule_def Let_def Failure_def split: option.splits if_splits)
  then show ?thesis by blast
qed

lemma deleteRuleFile_reload:
  "deleteRuleFile env p s = (res, s') \<Longrightarrow>
     rules s' = rules s \<or> (\<exists>s2. s' = loadExistingRules s2)"
  by (cases "removeRuleFile env p s")
    (auto simp add: deleteRuleFile_def split: if_splits dest: removeRuleFile_rules)

lemma deleteRule_reload:
  "deleteRule env nm s = (res, s') \<Longrightarrow>
     rules s' = rules s \<or> (\<exists>s2. s' = loadExistingRules s2)"
  by (auto simp add: deleteRule_def split: option.splits dest: deleteRuleFile_reload)

lemma cache_ok_reload:
  "cache_ok s \<Longrightarrow> rules s' = rules s \<or> (\<exists>s2. s' = loadExistingRules s2) \<Longrightarrow> cache_ok s'"
  using loadExistingRules_ok by (auto simp add: cache_ok_def)

text \<open>
  Claim C9. After the constructor and after createRule, deleteRule, deleteRuleFile and
  refresh, every cached rule has a vendor id, a symlink and a name that are not empty;
  a rule file without a \<open># Device:\<close> comment gets its symlink as its name.
\<close>

theorem cache_invariant:
  "cache_ok (UdevManager fs) \<and> cache_ok (refresh s)
   \<and> (cache_ok s \<longrightarrow> cache_ok (snd (createRule env d n s)))
   \<and> (cache_ok s \<longrightarrow> cache_ok (snd (deleteRule env nm s)))
   \<and> (cache_ok s \<longrightarrow> cache_ok (snd (deleteRuleFile env p s)))
   \<and> (parseRuleText p text = Some r \<longrightarrow>
        rule_ok r
        \<and> (list_all (\<lambda>line. \<not> contains ''# Device:'' line) (getlines text)
             \<longrightarrow> name r = symlink r))"
proof (intro conjI impI)
  show "cache_ok (UdevManager fs)" by (simp add: UdevManager_def loadExistingRules_ok)
  show "cache_ok (refresh s)" by (simp add: refresh_def loadExistingRules_ok)
next
  assume "cache_ok s"
  then show "cache_ok (snd (createRule env d n s))"
    using createRule_reload [of env d n s] cache_ok_reload [of s]
    by (cases "createRule env d n s") auto
next
  assume "cache_ok s"
  then show "cache_ok (snd (deleteRule env nm s))"
    using deleteRule_reload [of env nm s] cache_ok_reload [of s]
    by (cases "deleteRule env nm s") auto
next
  assume "cache_ok s"
  then show "cache_ok (snd (deleteRuleFile env p s))"
    using deleteRuleFile_reload [of env p s] cache_ok_reload [of s]
    by (cases "deleteRuleFile env p s") auto
next
  assume "parseRuleText p text = Some r"
  then show "rule_ok r" by (rule parseRuleText_ok)
next
  assume "parseRuleText p text = Some r"
    and "list_all (\<lambda>line. \<not> contains ''# Device:'' line) (getlines text)"
  then show "name r = symlink r" by (rule parseRuleText_default_name)
qed

theorem cache_invariant_witness:
  "cache_ok one_rule_store
   \<and> cache_ok (snd (createRule root_env ftdi_device ''RS485_1'' one_rule_store))
   \<and> cache_ok (snd (deleteRule root_env ''RS485_9'' one_rule_store))
   \<and> cache_ok (snd (deleteRuleFile root_env ''/etc/udev/rules.d/99-easytty-gone.rules''
        one_rule_store))
   \<and> parseRuleText ''/etc/udev/rules.d/10-easytty-gps.rules'' gps_rule_text = Some gps_rule
   \<and> list_all (\<lambda>line. \<not> contains ''# Device:'' line) (getlines gps_rule_text)
   \<and> rule_ok gps_rule \<and> name gps_rule = symlink gps_rule"
proof -
  have a: "cache_ok one_rule_store"
    by (simp add: cache_ok_def rule_ok_def one_rule_store_def ftdi_rule_def)
  have b: "parseRuleText ''/etc/udev/rules.d/10-easytty-gps.rules'' gps_rule_text = Some gps_rule"
    by code_simp
  have c: "list_all (\<lambda>line. \<not> contains ''# Device:'' line) (getlines gps_rule_text)"
    by code_simp
  show ?thesis
    using a b c
      cache_invariant [of "[]" one_rule_store root_env ftdi_device "''RS485_1''" "''RS485_9''"
        "''/etc/udev/rules.d/99-easytty-gone.rules''" gps_rule_text gps_rule]
      cache_invariant [of "[]" one_rule_store root_env ftdi_device "''RS485_1''" "''RS485_9''"
        "''/etc/udev/rules.d/10-easytty-gps.rules''" gps_rule_text gps_rule]
    by blast
qed

subsection \<open>The priority of a rule\<close>

lemma scan_line_priority: "priority (scan_line rule line) = priority rule"
  by (simp add: scan_line_def Let_def split: list.splits option.splits)

lemma foldl_scan_line_priority: "priority (foldl scan_line rule ls) = priority rule"
  by (induction ls arbitrary: rule) (simp_all add: scan_line_priority)

lemma parseRuleText_priority:
  "parseRuleText path text = Some r \<Longrightarrow>
     priority r = (case stoi (take 2 (path_filename path)) of
                     Some v \<Rightarrow> v | None \<Rightarrow> DEFAULT_PRIORITY)"
  by (auto simp add: parseRuleText_def Let_def foldl_scan_line_priority split: if_splits)

lemma load_entry_priority:
  "load_entry fs entry = Some r \<Longrightarrow>
     priority r = (case stoi (take 2 (path_filename (fst entry))) of
                     Some v \<Rightarrow> v | None \<Rightarrow> DEFAULT_PRIORITY)"
  by (auto simp add: load_entry_def parseRuleFile_def Let_def
      split: if_splits option.splits fnode.splits dest: parseRuleText_priority)

lemma digit_facts:
  "isdigit c \<Longrightarrow> \<not> isspace c \<and> c \<noteq> CHR ''+'' \<and> c \<noteq> CHR ''-''
     \<and> 0 \<le> digit_val c \<and> digit_val c \<le> 9"
  by (auto simp add: isdigit_def isspace_def char_between_def digit_val_def)

lemma stoi_no_digit:
  "\<not> isdigit c \<Longrightarrow> \<not> isspace c \<Longrightarrow> c \<noteq> CHR ''+'' \<Longrightarrow> c \<noteq> CHR ''-'' \<Longrightarrow>
     stoi (c # cs) = None"
  by (simp add: stoi_def)

lemma stoi_one_digit:
  "isdigit a \<Longrightarrow> (case cs of [] \<Rightarrow> True | b # _ \<Rightarrow> \<not> isdigit b) \<Longrightarrow>
     stoi (a # cs) = Some (digit_val a)"
  using digit_facts [of a]
  by (cases cs) (simp_all add: stoi_def decimal_def Let_def)

lemma stoi_two_digits:
  "isdigit a \<Longrightarrow> isdigit b \<Longrightarrow> stoi [a, b] = Some (10 * digit_val a + digit_val b)"
  using digit_facts [of a] digit_facts [of b]
  by (simp add: stoi_def decimal_def Let_def)

lemma stoi_two_chars:
  assumes "length s \<le> 2"
    and "case s of [] \<Rightarrow> True | c # _ \<Rightarrow> \<not> isspace c \<and> c \<noteq> CHR ''+'' \<and> c \<noteq> CHR ''-''"
  shows "(case stoi s of Some v \<Rightarrow> v | None \<Rightarrow> DEFAULT_PRIORITY) = spec_priority s"
proof (cases s)
  case Nil
  then show ?thesis
    by (simp add: stoi_def spec_priority_def numeric_prefix_def DEFAULT_PRIORITY_def)
next
  case (Cons a t)
  show ?thesis
  proof (cases "isdigit a")
    case False
    with Cons assms(2) show ?thesis
      by (simp add: stoi_no_digit spec_priority_def numeric_prefix_def DEFAULT_PRIORITY_def)
  next
    case True
    show ?thesis
    proof (cases t)
      case Nil
      with Cons True show ?thesis
        by (simp add: stoi_one_digit spec_priority_def numeric_prefix_def decimal_def)
    next
      case (Cons b u)
      with assms(1) \<open>s = a # t\<close> have u: "u = []" by simp
      show ?thesis
      proof (cases "isdigit b")
        case True
        with \<open>isdigit a\<close> \<open>s = a # t\<close> Cons u show ?thesis
          by (simp add: stoi_two_digits spec_priority_def numeric_prefix_def decimal_def)
      next
        case False
        with \<open>isdigit a\<close> \<open>s = a # t\<close> Cons u show ?thesis
          by (simp add: stoi_one_digit spec_priority_def numeric_prefix_def decimal_def)
      qed
    qed
  qed
qed

lemma numeric_prefix_take2:
  "length (numeric_prefix f) \<le> 2 \<Longrightarrow> numeric_prefix (take 2 f) = numeric_prefix f"
proof (cases f)
  case Nil
  then show ?thesis by simp
next
  case (Cons a t)
  assume len: "length (numeric_prefix f) \<le> 2"
  show ?thesis
  proof (cases t)
    case Nil
    with Cons show ?thesis by simp
  next
    case (Cons b u)
    with \<open>f = a # t\<close> len show ?thesis
      by (cases u) (auto simp add: numeric_prefix_def numeral_2_eq_2 split: if_splits)
  qed
qed

text \<open>
  Claim C7, as amended. parseRuleFile hands only the first two characters of the file
  name to \<^verbatim>\<open>std::stoi\<close>. For a file that the reload accepts and whose name does not
  begin with white space or a sign, the priority is the number formed by the digits at
  the start of those two characters, and 99 when there is none; it is the numeric
  prefix of the whole name when that prefix has at most two digits.
\<close>

theorem priority_from_first_two_characters:
  assumes "load_entry fs entry = Some r"
    and "case path_filename (fst entry) of
           [] \<Rightarrow> True
         | c # _ \<Rightarrow> \<not> isspace c \<and> c \<noteq> CHR ''+'' \<and> c \<noteq> CHR ''-''"
  shows "priority r = spec_priority (take 2 (path_filename (fst entry)))
    \<and> (length (numeric_prefix (path_filename (fst entry))) \<le> 2 \<longrightarrow>
         priority r = spec_priority (path_filename (fst entry)))"
proof -
  let ?f = "path_filename (fst entry)"
  have first: "case take 2 ?f of
                 [] \<Rightarrow> True
               | c # _ \<Rightarrow> \<not> isspace c \<and> c \<noteq> CHR ''+'' \<and> c \<noteq> CHR ''-''"
    using assms(2) by (cases ?f) (simp_all add: numeral_2_eq_2)
  have p: "priority r = spec_priority (take 2 ?f)"
    using load_entry_priority [OF assms(1)] stoi_two_chars [of "take 2 ?f", OF _ first]
    by simp
  moreover have "spec_priority (take 2 ?f) = spec_priority ?f"
    if "length (numeric_prefix ?f) \<le> 2"
    using numeric_prefix_take2 [OF that] by (simp add: spec_priority_def)
  ultimately show ?thesis by simp
qed


theorem priority_from_first_two_characters_witness:
  "load_entry three_digit_store (''/etc/udev/rules.d/100-easytty-x.rules'', File gps_rule_text)
     = Some three_digit_rule
   \<and> priority three_digit_rule = spec_priority ''10''
   \<and> load_entry two_digit_store (''/etc/udev/rules.d/10-easytty-gps.rules'', File gps_rule_text)
     = Some gps_rule
   \<and> length (numeric_prefix ''10-easytty-gps.rules'') \<le> 2
   \<and> priority gps_rule = spec_priority ''10-easytty-gps.rules''"
proof -
  have a: "load_entry three_digit_store
      (''/etc/udev/rules.d/100-easytty-x.rules'', File gps_rule_text) = Some three_digit_rule"
    by code_simp
  have b: "load_entry two_digit_store
      (''/etc/udev/rules.d/10-easytty-gps.rules'', File gps_rule_text) = Some gps_rule"
    by code_simp
  have c: "path_filename ''/etc/udev/rules.d/100-easytty-x.rules'' = ''100-easytty-x.rules''"
    by code_simp
  have d: "path_filename ''/etc/udev/rules.d/10-easytty-gps.rules'' = ''10-easytty-gps.rules''"
    by code_simp
  have e: "\<not> isspace (CHR ''1'')"
    by (simp add: isspace_def char_between_def)
  have f: "length (numeric_prefix ''10-easytty-gps.rules'') \<le> 2"
    by (simp add: numeric_prefix_def isdigit_def char_between_def)
  show ?thesis
    using a b f
      priority_from_first_two_characters [OF a] priority_from_first_two_characters [OF b]
    by (simp add: c d e)
qed

text \<open>
  The claim as stated fails for a numeric prefix of three digits: the reload reads the
  rule file \<open>100-easytty-x.rules\<close> with the priority 10, and the numeric prefix of the name
  is 100.
\<close>

theorem priority_three_digits_counterexample:
  "map priority (rules (UdevManager three_digit_store)) = [10]
   \<and> numeric_prefix (path_filename ''/etc/udev/rules.d/100-easytty-x.rules'') = ''100''
   \<and> spec_priority (path_filename ''/etc/udev/rules.d/100-easytty-x.rules'') = 100"
  by code_simp

subsection \<open>Devices without a product id\<close>

lemma starts_with_append: "starts_with sub (sub @ rest)"
  by (induction sub) simp_all

lemma starts_with_contains: "starts_with sub s \<Longrightarrow> contains sub s"
  by (cases s) simp_all

lemma contains_append: "contains sub (pre @ sub @ rest)"
proof (induction pre)
  case Nil
  show ?case using starts_with_contains [OF starts_with_append] by simp
next
  case (Cons c pre)
  then show ?case by simp
qed

lemma writeRuleFile_failure_message:
  "writeRuleFile env p c s = (res, s1) \<Longrightarrow> \<not> success res \<Longrightarrow>
     message res \<noteq> ''Invalid device information''"
  by (auto simp add: writeRuleFile_def Let_def Failure_def Success_default_def Success_def
      split: prod.splits if_splits)

lemma createRule_valid_device_message:
  assumes "isValid d"
  shows "message (fst (createRule env d n s)) \<noteq> ''Invalid device information''"
proof -
  obtain content s1 where g: "generateRuleContent env d n s = (content, s1)"
    by (cases "generateRuleContent env d n s")
  obtain wres s2 where w:
    "writeRuleFile env (RULES_DIR @ ''/'' @ generateRuleFileName n) content s1 = (wres, s2)"
    by (cases "writeRuleFile env (RULES_DIR @ ''/'' @ generateRuleFileName n) content s1")
  show ?thesis
    using assms g w writeRuleFile_failure_message [OF w]
    by (auto simp add: createRule_def Let_def Failure_def Success_def apostrophe_def
        split: option.splits)
qed

text \<open>
  Claim C10. A device with a device path and a vendor id, but without a product id and
  without a serial, is valid: createRule never answers it with the failure for an invalid
  device, and the rule line rendered for it holds the attribute \<open>ATTRS{idProduct}==""\<close>,
  followed at once by the symlink directive, with no serial attribute in between.
\<close>

theorem empty_product_device:
  assumes "devPath d \<noteq> []" and "DeviceInfo.vendorId d \<noteq> []"
    and "DeviceInfo.productId d = []" and "DeviceInfo.serial d = []"
  shows \<open>isValid d
    \<and> message (fst (createRule env d n s)) \<noteq> ''Invalid device information''
    \<and> fst (generateRuleContent env d n s)
        = ruleHeader d (fst (executeCommand env ''date'' s)) @ ruleLine d n
    \<and> ruleLine d n
        = ''SUBSYSTEM=="tty", ATTRS{idVendor}=="'' @ DeviceInfo.vendorId d
          @ ''", ATTRS{idProduct}=="", SYMLINK+="'' @ n @ ''", MODE="0666"'' @ [newline]
    \<and> contains ''ATTRS{idProduct}==""'' (fst (generateRuleContent env d n s))\<close>
proof -
  have v: "isValid d"
    using assms by (simp add: isValid_def)
  have line: \<open>ruleLine d n
        = ''SUBSYSTEM=="tty", ATTRS{idVendor}=="'' @ DeviceInfo.vendorId d
          @ ''", ATTRS{idProduct}=="", SYMLINK+="'' @ n @ ''", MODE="0666"'' @ [newline]\<close>
    using assms by (simp add: ruleLine_def)
  have gen: "fst (generateRuleContent env d n s)
        = ruleHeader d (fst (executeCommand env ''date'' s)) @ ruleLine d n"
    by (cases "executeCommand env ''date'' s") (simp add: generateRuleContent_def ruleContent_def)
  have \<open>contains ''ATTRS{idProduct}==""''
      ((ruleHeader d (fst (executeCommand env ''date'' s))
          @ ''SUBSYSTEM=="tty", ATTRS{idVendor}=="'' @ DeviceInfo.vendorId d @ ''", '')
        @ ''ATTRS{idProduct}==""'' @ ('', SYMLINK+="'' @ n @ ''", MODE="0666"'' @ [newline]))\<close>
    by (rule contains_append)
  then have c: \<open>contains ''ATTRS{idProduct}==""'' (fst (generateRuleContent env d n s))\<close>
    by (simp add: gen line)
  show ?thesis
    using v createRule_valid_device_message [OF v] gen line c by blast
qed

theorem empty_product_device_witness:
  \<open>isValid bare_device
   \<and> message (fst (createRule root_env bare_device ''arduino'' one_rule_store))
       \<noteq> ''Invalid device information''
   \<and> ruleLine bare_device ''arduino''
       = ''SUBSYSTEM=="tty", ATTRS{idVendor}=="2341", ATTRS{idProduct}=="", SYMLINK+="arduino", MODE="0666"''
         @ [newline]
   \<and> contains ''ATTRS{idProduct}==""''
       (fst (generateRuleContent root_env bare_device ''arduino'' one_rule_store))\<close>
proof -
  have h1: "devPath bare_device \<noteq> []" by (simp add: bare_device_def)
  have h2: "DeviceInfo.vendorId bare_device \<noteq> []" by (simp add: bare_device_def)
  have h3: "DeviceInfo.productId bare_device = []" by (simp add: bare_device_def)
  have h4: "DeviceInfo.serial bare_device = []" by (simp add: bare_device_def)
  have vid: "DeviceInfo.vendorId bare_device = ''2341''" by (simp add: bare_device_def)
  note t = empty_product_device [OF h1 h2 h3 h4, of root_env "''arduino''" one_rule_store]
  have l: \<open>ruleLine bare_device ''arduino''
       = ''SUBSYSTEM=="tty", ATTRS{idVendor}=="2341", ATTRS{idProduct}=="", SYMLINK+="arduino", MODE="0666"''
         @ [newline]\<close>
    using t vid by simp
  show ?thesis
    using t l by blast
qed

subsection \<open>The round trip of a rule\<close>

lemma strip_literal_Some: "strip_literal lit s = Some r \<longleftrightarrow> s = lit @ r"
proof (induction lit arbitrary: s)
  case Nil
  show ?case by auto
next
  case (Cons p ps)
  then show ?case by (cases s) auto
qed

lemma capture_run_Nil: "capture_run cls [] = None"
  by (simp add: capture_run_def)

lemma capture_run_fail: "\<not> cls c \<Longrightarrow> capture_run cls (c # s) = None"
  by (simp add: capture_run_def)

lemma capture_run_segment:
  assumes "list_all cls xs" and "\<not> cls (CHR 0x22)"
  shows "capture_run cls (xs @ CHR 0x22 # rest) = (if xs = [] then None else Some xs)"
proof -
  have "takeWhile cls (xs @ CHR 0x22 # rest) = xs"
    using assms by (induction xs) auto
  moreover have "dropWhile cls (xs @ CHR 0x22 # rest) = CHR 0x22 # rest"
    using assms by (induction xs) auto
  ultimately show ?thesis
    by (simp add: capture_run_def dquote_def)
qed

lemma endsWith_Cons: "endsWith xs q \<Longrightarrow> endsWith (x # xs) q"
  by (auto simp add: endsWith_def Suc_diff_le)

lemma endsWith_self: "endsWith xs xs"
  by (simp add: endsWith_def)

lemma endsWith_last: "endsWith xs q \<Longrightarrow> q \<noteq> [] \<Longrightarrow> last q \<in> set xs"
proof -
  assume a: "endsWith xs q" and b: "q \<noteq> []"
  from a have "set q \<subseteq> set xs"
    by (metis endsWith_def set_drop_subset)
  with b show ?thesis
    using last_in_set by blast
qed

lemma not_endsWith: "q \<noteq> [] \<Longrightarrow> last q \<notin> set xs \<Longrightarrow> endsWith xs q = False"
  using endsWith_last by blast

lemma takeWhile_until: "x \<notin> set xs \<Longrightarrow> takeWhile (\<lambda>c. c \<noteq> x) (xs @ x # r) = xs"
  by (induction xs) auto

lemma split_at_first:
  assumes "x \<notin> set xs" and "x \<notin> set ys" and "xs @ x # r = ys @ x # r'"
  shows "xs = ys \<and> r = r'"
proof -
  have "takeWhile (\<lambda>c. c \<noteq> x) (xs @ x # r) = takeWhile (\<lambda>c. c \<noteq> x) (ys @ x # r')"
    using assms(3) by simp
  then have "xs = ys"
    using assms(1,2) by (simp add: takeWhile_until)
  with assms(3) show ?thesis by simp
qed

lemma match_here_segment:
  assumes "CHR 0x22 \<notin> set xs" and "lit \<noteq> []" and "last lit = CHR 0x22"
    and "CHR 0x22 \<notin> set (butlast lit)"
    and "butlast lit = xs \<longrightarrow> capture_run cls rest = None"
  shows "match_here lit cls (xs @ CHR 0x22 # rest) = None"
proof (cases "strip_literal lit (xs @ CHR 0x22 # rest)")
  case None
  then show ?thesis by (simp add: match_here_def)
next
  case (Some r)
  then have "xs @ CHR 0x22 # rest = lit @ r"
    by (simp add: strip_literal_Some)
  moreover have "lit = butlast lit @ [CHR 0x22]"
    using assms(2,3) append_butlast_last_id [of lit] by simp
  ultimately have "xs @ CHR 0x22 # rest = (butlast lit @ [CHR 0x22]) @ r"
    by simp
  then have "xs @ CHR 0x22 # rest = butlast lit @ CHR 0x22 # r"
    by simp
  then have "xs = butlast lit \<and> rest = r"
    using assms(1,4) by (intro split_at_first) auto
  with assms(5) Some show ?thesis
    by (simp add: match_here_def)
qed

lemma regex_search_segment:
  assumes "CHR 0x22 \<notin> set xs" and "lit \<noteq> []" and "last lit = CHR 0x22"
    and "CHR 0x22 \<notin> set (butlast lit)"
    and "endsWith xs (butlast lit) \<longrightarrow> capture_run cls rest = None"
  shows "regex_search lit cls (xs @ CHR 0x22 # rest) = regex_search lit cls (CHR 0x22 # rest)"
  using assms(1,5)
proof (induction xs)
  case Nil
  show ?case by simp
next
  case (Cons x xs)
  have "match_here lit cls ((x # xs) @ CHR 0x22 # rest) = None"
    using Cons.prems assms(2,3,4) endsWith_self [of "x # xs"]
    by (intro match_here_segment) auto
  moreover have "regex_search lit cls (xs @ CHR 0x22 # rest)
      = regex_search lit cls (CHR 0x22 # rest)"
    using Cons.prems endsWith_Cons [of xs "butlast lit" x] by (intro Cons.IH) auto
  ultimately show ?case by simp
qed

lemma hex_chars:
  "list_all is_hex xs \<Longrightarrow>
     CHR 0x22 \<notin> set xs \<and> CHR ''='' \<notin> set xs \<and> CHR 0x0A \<notin> set xs"
  by (auto simp add: list_all_iff is_hex_def char_between_def)

lemma name_chars:
  "list_all is_name_char xs \<Longrightarrow>
     CHR 0x22 \<notin> set xs \<and> CHR ''='' \<notin> set xs \<and> CHR 0x0A \<notin> set xs"
  by (auto simp add: list_all_iff is_name_char_def char_between_def)

lemma not_dquote_all: "CHR 0x22 \<notin> set xs \<Longrightarrow> list_all not_dquote xs"
  by (auto simp add: list_all_iff not_dquote_def dquote_def)

lemma not_hex_dquote: "\<not> is_hex (CHR 0x22)"
  by (simp add: is_hex_def char_between_def)

lemma not_hex_comma: "\<not> is_hex (CHR '','')"
  by (simp add: is_hex_def char_between_def)

lemma not_not_dquote: "\<not> not_dquote (CHR 0x22)"
  by (simp add: not_dquote_def dquote_def)

lemmas search_simps = match_here_def capture_run_Nil capture_run_fail capture_run_segment
  regex_search_segment not_endsWith not_hex_dquote not_hex_comma not_not_dquote

lemma vendorRegex_body:
  assumes "list_all is_hex vid" and "vid \<noteq> []"
  shows "vendorRegex (rule_body vid pid ser nm) = Some vid"
  using assms by (simp add: vendorRegex_def rule_body_def search_simps)


lemma productRegex_body:
  assumes "list_all is_hex vid" and "list_all is_hex pid"
    and "CHR 0x22 \<notin> set ser" and "list_all is_name_char nm"
  shows "productRegex (rule_body vid pid ser nm) = (if pid = [] then None else Some pid)"
  using assms hex_chars [of vid] hex_chars [of pid] name_chars [of nm]
  by (simp add: productRegex_def rule_body_def search_simps)

lemma serialRegex_body:
  assumes "list_all is_hex vid" and "list_all is_hex pid"
    and "CHR 0x22 \<notin> set ser" and "list_all is_name_char nm"
  shows "serialRegex (rule_body vid pid ser nm) = (if ser = [] then None else Some ser)"
  using assms hex_chars [of vid] hex_chars [of pid] name_chars [of nm] not_dquote_all [of ser]
  by (simp add: serialRegex_def rule_body_def search_simps)

lemma symlinkRegex_body:
  assumes "list_all is_hex vid" and "list_all is_hex pid"
    and "CHR 0x22 \<notin> set ser" and "\<not> endsWith ser ''SYMLINK+=''"
    and "list_all is_name_char nm" and "nm \<noteq> []"
  shows "symlinkRegex (rule_body vid pid ser nm) = Some nm"
  using assms hex_chars [of vid] hex_chars [of pid] name_chars [of nm] not_dquote_all [of nm]
  by (simp add: symlinkRegex_def rule_body_def search_simps)

lemma dropWhile_until:
  "x \<notin> set xs \<Longrightarrow> dropWhile (\<lambda>c. c \<noteq> x) (xs @ x # r) = x # r"
  by (induction xs) auto

lemma getlines_line:
  "newline \<notin> set l \<Longrightarrow> getlines (l @ newline # rest) = l # getlines rest"
proof (cases l)
  case Nil
  then show ?thesis by simp
next
  case (Cons c cs)
  assume "newline \<notin> set l"
  then have n: "newline \<notin> set (c # cs)" using Cons by simp
  have "takeWhile (\<lambda>x. x \<noteq> newline) ((c # cs) @ newline # rest) = c # cs"
    using n by (rule takeWhile_until)
  moreover have "dropWhile (\<lambda>x. x \<noteq> newline) ((c # cs) @ newline # rest) = newline # rest"
    using n by (rule dropWhile_until)
  ultimately have "getlines (c # (cs @ newline # rest)) = (c # cs) # getlines rest"
    by (simp del: takeWhile.simps dropWhile.simps)
  with Cons show ?thesis by simp
qed

lemma getlines_lines:
  "list_all (\<lambda>l. newline \<notin> set l) ls \<Longrightarrow>
     getlines (concat (map (\<lambda>l. l @ [newline]) ls) @ rest) = ls @ getlines rest"
  by (induction ls) (simp_all add: getlines_line)

lemma ruleHeader_lines:
  "ruleHeader d created = concat (map (\<lambda>l. l @ [newline]) (header_lines d created))"
  by (simp add: ruleHeader_def header_lines_def)

lemma ruleLine_body:
  "ruleLine d nm
     = rule_body (DeviceInfo.vendorId d) (DeviceInfo.productId d) (DeviceInfo.serial d) nm
       @ [newline]"
  by (simp add: ruleLine_def rule_body_def)

lemma scan_line_skipped:
  "(case l of [] \<Rightarrow> True | c # _ \<Rightarrow> c = CHR ''#'') \<Longrightarrow>
     rule_identity (scan_line r l) = rule_identity r"
  by (simp add: scan_line_def rule_identity_def Let_def split: list.splits)

lemma foldl_scan_line_skipped:
  "list_all (\<lambda>l. case l of [] \<Rightarrow> True | c # _ \<Rightarrow> c = CHR ''#'') ls \<Longrightarrow>
     rule_identity (foldl scan_line r ls) = rule_identity r"
  by (induction ls arbitrary: r) (simp_all add: scan_line_skipped)

lemma header_lines_skipped:
  "list_all (\<lambda>l. case l of [] \<Rightarrow> True | c # _ \<Rightarrow> c = CHR ''#'') (header_lines d created)"
  by (simp add: header_lines_def)

lemma header_lines_newline:
  assumes "newline \<notin> set (manufacturer d)" and "newline \<notin> set (product d)"
    and "newline \<notin> set (devNode d)" and "newline \<notin> set (devPath d)"
    and "newline \<notin> set created"
    and "newline \<notin> set (DeviceInfo.vendorId d)" and "newline \<notin> set (DeviceInfo.productId d)"
    and "newline \<notin> set (DeviceInfo.serial d)"
  shows "list_all (\<lambda>l. newline \<notin> set l) (header_lines d created)"
  using assms by (simp add: header_lines_def getDisplayName_def newline_def)

lemma rule_body_newline:
  assumes "newline \<notin> set vid" and "newline \<notin> set pid" and "newline \<notin> set ser"
    and "newline \<notin> set nm"
  shows "newline \<notin> set (rule_body vid pid ser nm)"
  using assms by (simp add: rule_body_def newline_def)

lemma scan_line_body:
  assumes "vendorRegex l = Some vid" and "productRegex l = (if pid = [] then None else Some pid)"
    and "serialRegex l = (if ser = [] then None else Some ser)" and "symlinkRegex l = Some nm"
    and "l = CHR ''S'' # t" and "productId r = []" and "serial r = []"
  shows "rule_identity (scan_line r l) = (vid, pid, ser, nm)"
  using assms by (simp add: scan_line_def rule_identity_def Let_def)

lemma valid_name_chars: "isValidSymlinkName nm \<Longrightarrow> list_all is_name_char nm \<and> nm \<noteq> []"
  by (cases nm) (auto simp add: isValidSymlinkName_def is_letter_def is_name_char_def split: if_splits)

lemma parse_render:
  assumes vid: "list_all is_hex (DeviceInfo.vendorId d)" "DeviceInfo.vendorId d \<noteq> []"
    and pid: "list_all is_hex (DeviceInfo.productId d)"
    and ser: "dquote \<notin> set (DeviceInfo.serial d)" "newline \<notin> set (DeviceInfo.serial d)"
      "\<not> endsWith (DeviceInfo.serial d) ''SYMLINK+=''"
    and nm: "isValidSymlinkName nm"
    and hdr: "newline \<notin> set (manufacturer d)" "newline \<notin> set (product d)"
      "newline \<notin> set (devNode d)" "newline \<notin> set (devPath d)" "newline \<notin> set created"
  shows "map_option rule_identity (parseRuleText path (ruleContent d nm created))
    = Some (DeviceInfo.vendorId d, DeviceInfo.productId d, DeviceInfo.serial d, nm)"
proof -
  let ?vid = "DeviceInfo.vendorId d" and ?pid = "DeviceInfo.productId d"
    and ?ser = "DeviceInfo.serial d"
  let ?body = "rule_body ?vid ?pid ?ser nm"
  let ?rule0 = "new_rule\<lparr>filePath := path, isActive := True,
      priority := (case stoi (take 2 (path_filename path)) of
                     Some v \<Rightarrow> v | None \<Rightarrow> DEFAULT_PRIORITY)\<rparr>"
  have nmc: "list_all is_name_char nm" "nm \<noteq> []"
    using valid_name_chars [OF nm] by simp_all
  have q: "CHR 0x22 \<notin> set ?ser"
    using ser(1) by (simp add: dquote_def)
  have nl: "newline \<notin> set ?vid" "newline \<notin> set ?pid" "newline \<notin> set nm"
    using hex_chars [OF vid(1)] hex_chars [OF pid] name_chars [OF nmc(1)]
    by (simp_all add: newline_def)
  have lines: "getlines (ruleContent d nm created) = header_lines d created @ [?body]"
  proof -
    have "getlines (ruleContent d nm created)
        = header_lines d created @ getlines (?body @ newline # [])"
      using header_lines_newline [OF hdr nl(1,2) ser(2)]
      by (simp add: ruleContent_def ruleHeader_lines ruleLine_body getlines_lines)
    also have "getlines (?body @ newline # []) = [?body]"
      using rule_body_newline [OF nl(1,2) ser(2) nl(3)] by (simp add: getlines_line)
    finally show ?thesis .
  qed
  let ?r1 = "foldl scan_line ?rule0 (header_lines d created)"
  have r1: "rule_identity ?r1 = ([], [], [], [])"
    using foldl_scan_line_skipped [OF header_lines_skipped, of ?rule0 d created]
    by (simp add: rule_identity_def new_rule_def)
  have start: "?body = CHR ''S'' # tl ?body"
    by (simp add: rule_body_def)
  have r2: "rule_identity (scan_line ?r1 ?body) = (?vid, ?pid, ?ser, nm)"
    using r1
    by (intro scan_line_body [OF vendorRegex_body [OF vid] productRegex_body [OF vid(1) pid q nmc(1)]
          serialRegex_body [OF vid(1) pid q nmc(1)]
          symlinkRegex_body [OF vid(1) pid q ser(3) nmc] start])
      (simp_all add: rule_identity_def)
  have fold: "foldl scan_line ?rule0 (getlines (ruleContent d nm created)) = scan_line ?r1 ?body"
    by (simp add: lines)
  show ?thesis
    using r2 vid(2) nmc(2)
    by (simp add: parseRuleText_def Let_def fold rule_identity_def)
qed


text \<open>
  Claim C3, as amended. For a valid device whose vendor id and product id consist of
  hexadecimal digits (the product id may be empty), whose serial has no double quote and
  no line break and does not end in \<open>SYMLINK+=\<close>, whose manufacturer, product, device node
  and device path have no line break, and for a name of the naming grammar, parseRuleFile
  on the file that holds the output of generateRuleContent (written when \<open>date\<close> printed
  one line) succeeds, and the vendor id, product id, serial and symlink of the rule are
  those of the device and the name.
\<close>

theorem rule_round_trip:
  assumes "isValid d" and "isValidSymlinkName nm"
    and "list_all is_hex (DeviceInfo.vendorId d)" and "list_all is_hex (DeviceInfo.productId d)"
    and "dquote \<notin> set (DeviceInfo.serial d)" and "newline \<notin> set (DeviceInfo.serial d)"
    and "\<not> endsWith (DeviceInfo.serial d) ''SYMLINK+=''"
    and "newline \<notin> set (manufacturer d)" and "newline \<notin> set (product d)"
    and "newline \<notin> set (devNode d)" and "newline \<notin> set (devPath d)"
    and "newline \<notin> set (fst (executeCommand env ''date'' s))"
    and "map_of fs path = Some (File (fst (generateRuleContent env d nm s)))"
  shows "map_option rule_identity (parseRuleFile fs path)
    = Some (DeviceInfo.vendorId d, DeviceInfo.productId d, DeviceInfo.serial d, nm)"
proof -
  have v: "DeviceInfo.vendorId d \<noteq> []"
    using assms(1) by (simp add: isValid_def)
  have c: "fst (generateRuleContent env d nm s)
      = ruleContent d nm (fst (executeCommand env ''date'' s))"
    by (cases "executeCommand env ''date'' s") (simp add: generateRuleContent_def)
  show ?thesis
    using parse_render [OF assms(3) v assms(4-7) assms(2) assms(8-12), of path] assms(13)
    by (simp add: parseRuleFile_def c)
qed

theorem rule_round_trip_witness:
  "map_option rule_identity
     (parseRuleFile
        [(''/etc/udev/rules.d/99-easytty-RS485_1.rules'',
          File (fst (generateRuleContent root_env ftdi_device ''RS485_1'' one_rule_store)))]
        ''/etc/udev/rules.d/99-easytty-RS485_1.rules'')
   = Some (''0403'', ''6001'', ''A50285BI'', ''RS485_1'')
   \<and> map_option rule_identity
     (parseRuleFile
        [(''/etc/udev/rules.d/99-easytty-arduino.rules'',
          File (fst (generateRuleContent root_env bare_device ''arduino'' one_rule_store)))]
        ''/etc/udev/rules.d/99-easytty-arduino.rules'')
   = Some (''2341'', [], [], ''arduino'')"
proof -
  have date: "fst (executeCommand root_env ''date'' one_rule_store) = []"
    by (simp add: executeCommand_def root_env_def trim_def)
  have a: "map_option rule_identity
     (parseRuleFile
        [(''/etc/udev/rules.d/99-easytty-RS485_1.rules'',
          File (fst (generateRuleContent root_env ftdi_device ''RS485_1'' one_rule_store)))]
        ''/etc/udev/rules.d/99-easytty-RS485_1.rules'')
   = Some (DeviceInfo.vendorId ftdi_device, DeviceInfo.productId ftdi_device,
       DeviceInfo.serial ftdi_device, ''RS485_1'')"
    by (rule rule_round_trip)
      (simp_all add: date ftdi_device_def isValid_def isValidSymlinkName_def is_letter_def
        is_name_char_def is_hex_def char_between_def dquote_def newline_def endsWith_def)
  have b: "map_option rule_identity
     (parseRuleFile
        [(''/etc/udev/rules.d/99-easytty-arduino.rules'',
          File (fst (generateRuleContent root_env bare_device ''arduino'' one_rule_store)))]
        ''/etc/udev/rules.d/99-easytty-arduino.rules'')
   = Some (DeviceInfo.vendorId bare_device, DeviceInfo.productId bare_device,
       DeviceInfo.serial bare_device, ''arduino'')"
    by (rule rule_round_trip)
      (simp_all add: date bare_device_def isValid_def isValidSymlinkName_def is_letter_def
        is_name_char_def is_hex_def char_between_def dquote_def newline_def endsWith_def)
  show ?thesis
    using a b by (simp add: ftdi_device_def bare_device_def)
qed

text \<open>
  The claim as stated fails for a valid device whose serial holds a double quote: the
  rule parsed from the rendered text has the serial up to the quote only.
\<close>

theorem rule_round_trip_counterexample:
  \<open>isValid quoted_serial_device \<and> isValidSymlinkName ''RS485_1''
   \<and> DeviceInfo.serial quoted_serial_device = ''AB"CD''
   \<and> map_option rule_identity
        (parseRuleFile
           [(''/etc/udev/rules.d/99-easytty-RS485_1.rules'',
             File (fst (generateRuleContent root_env quoted_serial_device ''RS485_1''
                          one_rule_store)))]
           ''/etc/udev/rules.d/99-easytty-RS485_1.rules'')
      = Some (''0403'', ''6001'', ''AB'', ''RS485_1'')\<close>
  by code_simp

end
